theory Spec2Isabelle
  imports Complex_Main
begin

section \<open>Data model of \<open>power_monitor.py\<close>\<close>

text \<open>
  Python's \<open>float\<close> values (timestamps, intervals, watts) are idealised as \<^typ>\<open>real\<close>;
  Python's unbounded \<open>int\<close> (the energy counter) is \<^typ>\<open>int\<close>. Rounding, infinities and
  NaN are outside the model.
\<close>

datatype py_error = TypeError | ValueError | OverflowError

text \<open>One entry of \<open>self.measurements\<close>: the dict built by \<open>take_measurement\<close>.\<close>

record measurement =
  timestamp :: string
  timestamp_unix :: real
  ipmi_watts :: "real option"
  rapl_pkg_watts :: "real option"
  rapl_energy_uj :: "int option"

text \<open>The attributes of a \<open>PowerMonitor\<close> object (the RAPL paths are constants).\<close>

record PowerMonitor =
  interval :: real
  output_file :: "string option"
  verbose :: bool
  running :: bool
  measurements :: "measurement list"
  prev_rapl_energy :: "int option"
  prev_rapl_time :: "real option"

text \<open>
  \<open>PowerMonitor.__init__\<close>, for a host on which \<open>_check_interfaces\<close> finds no error
  (otherwise the process exits and no object exists).
\<close>

definition init_monitor :: "real \<Rightarrow> string option \<Rightarrow> bool \<Rightarrow> PowerMonitor" where
  "init_monitor interval_arg output_file_arg verbose_arg =
     \<lparr> interval = interval_arg, output_file = output_file_arg, verbose = verbose_arg,
       running = False, measurements = [],
       prev_rapl_energy = None, prev_rapl_time = None \<rparr>"

section \<open>The power estimator\<close>

text \<open>
  The division \<open>energy_delta_uj / time_delta_s\<close> divides an \<open>int\<close> by a \<open>float\<close> and
  converts the \<open>int\<close> first; an integer that rounds to \<open>2^1024\<close> or beyond in magnitude
  has no \<open>float\<close>, and the conversion raises \<open>OverflowError\<close>.
\<close>

definition int_fits_float :: "int \<Rightarrow> bool" where
  "int_fits_float n \<longleftrightarrow> \<bar>n\<bar> < 2 ^ 1024 - 2 ^ 970"

text \<open>
  \<open>PowerMonitor.calculate_rapl_power\<close>. An exception leaves the method with the object
  as it is at that point, so the error carries the object too. The method tests only
  \<open>prev_rapl_energy\<close> for \<open>None\<close>; with an energy stored and no time stored,
  \<open>timestamp - self.prev_rapl_time\<close> raises \<open>TypeError\<close> before anything is assigned.
  The division comes after the new values are stored.
\<close>

definition max_counter :: int where
  "max_counter = 2 ^ 32"

definition calculate_rapl_power ::
    "PowerMonitor \<Rightarrow> int \<Rightarrow> real
       \<Rightarrow> (py_error \<times> PowerMonitor) + (real option \<times> PowerMonitor)" where
  "calculate_rapl_power self energy_uj ts =
     (case prev_rapl_energy self of
        None \<Rightarrow>
          Inr (None, self\<lparr>prev_rapl_energy := Some energy_uj, prev_rapl_time := Some ts\<rparr>)
      | Some prev_energy \<Rightarrow>
          (case prev_rapl_time self of
             None \<Rightarrow> Inl (TypeError, self)
           | Some prev_time \<Rightarrow>
               (let energy_delta_uj = energy_uj - prev_energy;
                    time_delta_s = ts - prev_time;
                    energy_delta_uj =
                      (if energy_delta_uj < 0 then energy_delta_uj + max_counter
                       else energy_delta_uj);
                    self' = self\<lparr>prev_rapl_energy := Some energy_uj,
                                 prev_rapl_time := Some ts\<rparr>
                in if time_delta_s \<le> 0 then Inr (None, self')
                   else if \<not> int_fits_float energy_delta_uj then Inl (OverflowError, self')
                   else Inr (Some ((real_of_int energy_delta_uj / time_delta_s) / 1000000),
                             self'))))"

text \<open>The estimator state is well formed when both fields are set or neither is.\<close>

definition both_or_neither :: "PowerMonitor \<Rightarrow> bool" where
  "both_or_neither self \<longleftrightarrow> (prev_rapl_energy self = None) = (prev_rapl_time self = None)"

section \<open>Reading the energy counter\<close>

text \<open>
  \<open>str.strip()\<close> removes the characters for which \<open>str.isspace\<close> holds from both ends.
  A \<^typ>\<open>char\<close> stands for a code point below 256; among those the white space is
  U+0009 to U+000D, U+001C to U+0020, U+0085 and U+00A0.
\<close>

definition py_isspace :: "char \<Rightarrow> bool" where
  "py_isspace c \<longleftrightarrow>
     c \<in> set [CHR 0x09, CHR 0x0A, CHR 0x0B, CHR 0x0C, CHR 0x0D, CHR 0x1C, CHR 0x1D,
              CHR 0x1E, CHR 0x1F, CHR 0x20, CHR 0x85, CHR 0xA0]"

definition py_strip :: "string \<Rightarrow> string" where
  "py_strip s = rev (dropWhile py_isspace (rev (dropWhile py_isspace s)))"

definition digit_value :: "char \<Rightarrow> nat option" where
  "digit_value =
     map_of [(CHR ''0'', 0), (CHR ''1'', 1), (CHR ''2'', 2), (CHR ''3'', 3), (CHR ''4'', 4),
             (CHR ''5'', 5), (CHR ''6'', 6), (CHR ''7'', 7), (CHR ''8'', 8), (CHR ''9'', 9)]"

text \<open>
  The digits of an integer literal as \<open>int()\<close> scans them in base 10: a digit first, and
  an underscore only between two digits. The result lists the digit values, underscores
  dropped; \<open>None\<close> is a malformed text.
\<close>

fun scan_digits :: "string \<Rightarrow> nat list option" where
  "scan_digits [] = None"
| "scan_digits (c # cs) =
     (case digit_value c of
        None \<Rightarrow> None
      | Some d \<Rightarrow>
          (case cs of
             [] \<Rightarrow> Some [d]
           | c' # cs' \<Rightarrow>
               if c' = CHR ''_'' then map_option ((#) d) (scan_digits cs')
               else map_option ((#) d) (scan_digits cs)))"

definition decimal :: "nat list \<Rightarrow> nat" where
  "decimal ds = foldl (\<lambda>acc d. 10 * acc + d) 0 ds"

text \<open>
  CPython (3.11 and later) refuses to convert a text of more than
  \<open>sys.int_info.default_max_str_digits\<close> digits.
\<close>

definition int_max_str_digits :: nat where
  "int_max_str_digits = 4300"

text \<open>
  \<open>int(s)\<close> for a text \<open>s\<close>: surrounding white space is skipped, one sign is allowed,
  anything else than a well-formed digit sequence raises \<open>ValueError\<close>.
\<close>

definition py_int :: "string \<Rightarrow> py_error + int" where
  "py_int s =
     (let t = py_strip s;
          (negative, body) =
            (case t of
               [] \<Rightarrow> (False, t)
             | c # cs \<Rightarrow>
                 if c = CHR ''-'' then (True, cs)
                 else if c = CHR ''+'' then (False, cs)
                 else (False, t))
      in case scan_digits body of
           None \<Rightarrow> Inl ValueError
         | Some ds \<Rightarrow>
             if length ds > int_max_str_digits then Inl ValueError
             else Inr (if negative then - int (decimal ds) else int (decimal ds)))"

text \<open>
  \<open>PowerMonitor.read_rapl_energy\<close>. The argument is what \<open>f.read()\<close> yields, or \<open>None\<close>
  when opening or reading the file raises; every exception becomes the result \<open>None\<close>.
\<close>

definition read_rapl_energy :: "string option \<Rightarrow> int option" where
  "read_rapl_energy content =
     (case content of
        None \<Rightarrow> None
      | Some text \<Rightarrow>
          (case py_int (py_strip text) of
             Inl err \<Rightarrow> None
           | Inr energy_uj \<Rightarrow> Some energy_uj))"

section \<open>One sampling round\<close>

text \<open>
  What the host supplies in one round: the result of \<open>read_ipmi_power\<close> (an external
  command, not modelled further), the content of the energy file, and the wall-clock
  time the round takes.
\<close>

record tick =
  ipmi_reading :: "real option"
  rapl_content :: "string option"
  elapsed :: real

text \<open>
  The world outside the object: the wall clock read by \<open>time.time()\<close>, the local-time
  rendering of \<open>datetime.fromtimestamp(...).strftime(...)\<close> (which raises for a time
  outside the platform's range), whether the output path can be opened for writing, the
  durations passed to \<open>time.sleep\<close> so far, and the files written so far. Time passes
  while a round collects and while the loop sleeps.
\<close>

datatype csv_cell = Text string | Float real | Integer int

record world =
  clock :: real
  localtime :: "real \<Rightarrow> py_error + string"
  output_writable :: bool
  slept :: "real list"
  written :: "(string \<times> csv_cell list list) list"

definition take_measurement ::
    "PowerMonitor \<Rightarrow> world \<Rightarrow> tick
       \<Rightarrow> (py_error \<times> PowerMonitor \<times> world) + (measurement \<times> PowerMonitor \<times> world)" where
  "take_measurement self w tk =
     (let ts = clock w;
          w' = w\<lparr>clock := clock w + elapsed tk\<rparr>
      in case localtime w ts of
           Inl err \<Rightarrow> Inl (err, self, w')
         | Inr timestamp_str \<Rightarrow>
             (let ipmi_power = ipmi_reading tk;
                  rapl_energy = read_rapl_energy (rapl_content tk)
              in case rapl_energy of
                   None \<Rightarrow>
                     Inr (\<lparr> timestamp = timestamp_str, timestamp_unix = ts,
                            ipmi_watts = ipmi_power, rapl_pkg_watts = None,
                            rapl_energy_uj = None \<rparr>, self, w')
                 | Some energy_uj \<Rightarrow>
                     (case calculate_rapl_power self energy_uj ts of
                        Inl (err, self') \<Rightarrow> Inl (err, self', w')
                      | Inr (rapl_power, self') \<Rightarrow>
                          Inr (\<lparr> timestamp = timestamp_str, timestamp_unix = ts,
                                 ipmi_watts = ipmi_power, rapl_pkg_watts = rapl_power,
                                 rapl_energy_uj = rapl_energy \<rparr>, self', w'))))"

section \<open>Persisting the series\<close>

text \<open>
  \<open>csv.DictWriter\<close> writes the values of a row in the order of \<open>fieldnames\<close>, a number
  as its \<open>str()\<close> (kept as the number here) and \<open>None\<close> as the empty string.
\<close>

definition fieldnames :: "csv_cell list" where
  "fieldnames = [Text ''timestamp'', Text ''timestamp_unix'', Text ''ipmi_watts'',
                 Text ''rapl_pkg_watts'', Text ''rapl_energy_uj'']"

definition csv_value :: "('a \<Rightarrow> csv_cell) \<Rightarrow> 'a option \<Rightarrow> csv_cell" where
  "csv_value f v = (case v of None \<Rightarrow> Text [] | Some x \<Rightarrow> f x)"

definition csv_row :: "measurement \<Rightarrow> csv_cell list" where
  "csv_row m = [Text (timestamp m), Float (timestamp_unix m), csv_value Float (ipmi_watts m),
                csv_value Float (rapl_pkg_watts m), csv_value Integer (rapl_energy_uj m)]"

text \<open>Python's truth value of an optional text and of an optional float.\<close>

definition truthy_path :: "string option \<Rightarrow> bool" where
  "truthy_path p = (case p of None \<Rightarrow> False | Some s \<Rightarrow> s \<noteq> [])"

definition truthy_float :: "real option \<Rightarrow> bool" where
  "truthy_float d = (case d of None \<Rightarrow> False | Some x \<Rightarrow> x \<noteq> 0)"

text \<open>
  \<open>PowerMonitor.save_to_csv\<close>: nothing happens without an output path or without
  measurements; a failure to open the file is caught and reported only.
\<close>

definition save_to_csv :: "PowerMonitor \<Rightarrow> world \<Rightarrow> world" where
  "save_to_csv self w =
     (case output_file self of
        None \<Rightarrow> w
      | Some path \<Rightarrow>
          if \<not> truthy_path (output_file self) \<or> measurements self = [] then w
          else if output_writable w
            then w\<lparr>written := written w @ [(path, fieldnames # map csv_row (measurements self))]\<rparr>
            else w)"

section \<open>The monitoring loop\<close>

datatype outcome = DurationElapsed | Interrupted | NotRunning | Raised py_error

record run_result =
  outcome :: outcome
  monitor :: PowerMonitor
  final_world :: world
  measurement_count :: nat

text \<open>The test \<open>duration and (time.time() - start_time) >= duration\<close>.\<close>

definition duration_reached :: "real option \<Rightarrow> real \<Rightarrow> real \<Rightarrow> bool" where
  "duration_reached duration start_time now =
     (case duration of
        None \<Rightarrow> False
      | Some d \<Rightarrow> truthy_float duration \<and> now - start_time \<ge> d)"

text \<open>
  \<open>time.sleep(secs)\<close> converts the seconds to a count of nanoseconds, rounded away from
  zero, and raises \<open>OverflowError\<close> when the count does not fit 64 signed bits; then it
  raises \<open>ValueError\<close> for a negative count. \<open>None\<close> is a sleep that takes place.
\<close>

definition time_sleep :: "real \<Rightarrow> py_error option" where
  "time_sleep secs =
     (let ns = (if 0 \<le> secs then \<lceil>secs * 1000000000\<rceil> else \<lfloor>secs * 1000000000\<rfloor>)
      in if ns < - (2 ^ 63) \<or> 2 ^ 63 \<le> ns then Some OverflowError
         else if ns < 0 then Some ValueError
         else None)"

text \<open>
  The \<open>while self.running\<close> loop of \<open>run\<close>. The list holds the rounds the host still
  supplies; when it is used up the operator's \<open>KeyboardInterrupt\<close> arrives in place of
  the next round. A sleep that takes place lets the clock advance by its argument.
  Console output is left out.
\<close>

fun sampling_loop ::
    "real option \<Rightarrow> real \<Rightarrow> PowerMonitor \<Rightarrow> world \<Rightarrow> nat \<Rightarrow> tick list
       \<Rightarrow> outcome \<times> PowerMonitor \<times> world \<times> nat" where
  "sampling_loop duration start_time self w n [] =
     (if \<not> running self then (NotRunning, self, w, n)
      else if duration_reached duration start_time (clock w) then (DurationElapsed, self, w, n)
      else (Interrupted, self, w, n))"
| "sampling_loop duration start_time self w n (tk # tks) =
     (if \<not> running self then (NotRunning, self, w, n)
      else if duration_reached duration start_time (clock w) then (DurationElapsed, self, w, n)
      else
        (case take_measurement self w tk of
           Inl (err, self1, w1) \<Rightarrow> (Raised err, self1, w1, n)
         | Inr (m, self1, w1) \<Rightarrow>
             (let self2 = self1\<lparr>measurements := measurements self1 @ [m]\<rparr>;
                  n2 = n + 1
              in case time_sleep (interval self2) of
                   Some err \<Rightarrow> (Raised err, self2, w1, n2)
                 | None \<Rightarrow>
                     sampling_loop duration start_time self2
                       (w1\<lparr>clock := clock w1 + interval self2,
                           slept := slept w1 @ [interval self2]\<rparr>) n2 tks)))"

text \<open>
  \<open>PowerMonitor.run\<close>: the start time is read first, then the priming round is taken
  (outside the \<open>try\<close>, so an exception there skips the \<open>finally\<close> block), then the loop
  runs, and the \<open>finally\<close> block clears \<open>running\<close> and saves the measurements.
\<close>

definition run :: "PowerMonitor \<Rightarrow> real option \<Rightarrow> world \<Rightarrow> tick \<Rightarrow> tick list \<Rightarrow> run_result" where
  "run self duration w priming tks =
     (let self0 = self\<lparr>running := True\<rparr>;
          start_time = clock w
      in case take_measurement self0 w priming of
           Inl (err, self1, w1) \<Rightarrow>
             \<lparr> outcome = Raised err, monitor = self1, final_world = w1,
               measurement_count = 0 \<rparr>
         | Inr (initial, self1, w1) \<Rightarrow>
             (case sampling_loop duration start_time self1 w1 0 tks of
                (out, self2, w2, n) \<Rightarrow>
                  (let self3 = self2\<lparr>running := False\<rparr>;
                       w3 = (if truthy_path (output_file self3) then save_to_csv self3 w2
                             else w2)
                   in \<lparr> outcome = out, monitor = self3, final_world = w3,
                        measurement_count = n \<rparr>)))"

section \<open>The loop as the specification words it\<close>


text \<open>
  The specification's timed window: \<open>run\<close> with the start time read when the Sampling
  state begins, after the priming round, and nothing else changed.
\<close>

definition run_timed_from_sampling ::
    "PowerMonitor \<Rightarrow> real option \<Rightarrow> world \<Rightarrow> tick \<Rightarrow> tick list \<Rightarrow> run_result" where
  "run_timed_from_sampling self duration w priming tks =
     (let self0 = self\<lparr>running := True\<rparr>
      in case take_measurement self0 w priming of
           Inl (err, self1, w1) \<Rightarrow>
             \<lparr> outcome = Raised err, monitor = self1, final_world = w1,
               measurement_count = 0 \<rparr>
         | Inr (initial, self1, w1) \<Rightarrow>
             (let start_time = clock w1
              in case sampling_loop duration start_time self1 w1 0 tks of
                   (out, self2, w2, n) \<Rightarrow>
                     (let self3 = self2\<lparr>running := False\<rparr>;
                          w3 = (if truthy_path (output_file self3) then save_to_csv self3 w2
                                else w2)
                      in \<lparr> outcome = out, monitor = self3, final_world = w3,
                           measurement_count = n \<rparr>)))"

section \<open>Sample hosts\<close>

text \<open>
  A host whose clock reads 0 and whose output path is writable, and a round in which the
  management controller gives no reading, the energy file holds the given text and
  collecting takes the given time.
\<close>

definition host0 :: world where
  "host0 = \<lparr> clock = 0, localtime = (\<lambda>t. Inr ''2024-01-01 00:00:00.000''),
             output_writable = True, slept = [], written = [] \<rparr>"

definition round_of :: "string \<Rightarrow> real \<Rightarrow> tick" where
  "round_of content cost = \<lparr> ipmi_reading = None, rapl_content = Some content, elapsed = cost \<rparr>"

section \<open>Energies in the counter's range\<close>




section \<open>Reachable monitor objects\<close>

text \<open>
  The objects the program can hold: the one \<open>__init__\<close> builds, and whatever an estimator
  call, a sampling round (returning or raising) or a whole run makes of a reachable
  object.
\<close>

inductive reachable :: "PowerMonitor \<Rightarrow> bool" where
  reach_init: "reachable (init_monitor i out v)"
| reach_estimate:
    "reachable self \<Longrightarrow> calculate_rapl_power self e t = Inr (r, self') \<Longrightarrow> reachable self'"
| reach_estimate_raised:
    "reachable self \<Longrightarrow> calculate_rapl_power self e t = Inl (err, self') \<Longrightarrow> reachable self'"
| reach_round:
    "reachable self \<Longrightarrow> take_measurement self w tk = Inr (m, self', w') \<Longrightarrow> reachable self'"
| reach_round_raised:
    "reachable self \<Longrightarrow> take_measurement self w tk = Inl (err, self', w') \<Longrightarrow> reachable self'"
| reach_run:
    "reachable self \<Longrightarrow> reachable (monitor (run self duration w priming tks))"

section \<open>Auxiliary facts\<close>

subsection \<open>The estimator and the sampling round\<close>

lemma calculate_stores:
  assumes "calculate_rapl_power self e t = Inr (r, self')"
  shows "self' = self\<lparr>prev_rapl_energy := Some e, prev_rapl_time := Some t\<rparr>"
  using assms
  by (auto simp: calculate_rapl_power_def Let_def split: option.splits if_splits)

lemma calculate_raised:
  assumes "calculate_rapl_power self e t = Inl (err, self')"
  shows "(err = TypeError \<and> self' = self \<and> prev_rapl_energy self \<noteq> None \<and>
          prev_rapl_time self = None) \<or>
         (err = OverflowError \<and>
          self' = self\<lparr>prev_rapl_energy := Some e, prev_rapl_time := Some t\<rparr>)"
  using assms
  by (auto simp: calculate_rapl_power_def Let_def split: option.splits if_splits)

lemma calculate_second:
  assumes "prev_rapl_energy self = Some e1" and "prev_rapl_time self = Some t1"
    and "t2 - t1 \<le> 0 \<or> int_fits_float (if e2 - e1 < 0 then e2 - e1 + 2 ^ 32 else e2 - e1)"
  shows "calculate_rapl_power self e2 t2 =
           Inr (if t2 - t1 \<le> 0 then None
                else Some ((real_of_int (if e2 - e1 < 0 then e2 - e1 + 2 ^ 32 else e2 - e1)
                            / (t2 - t1)) / 1000000),
                self\<lparr>prev_rapl_energy := Some e2, prev_rapl_time := Some t2\<rparr>)"
  using assms by (auto simp: calculate_rapl_power_def Let_def max_counter_def)

lemma calculate_total:
  assumes "both_or_neither self"
  shows "(\<exists>r. calculate_rapl_power self e t =
            Inr (r, self\<lparr>prev_rapl_energy := Some e, prev_rapl_time := Some t\<rparr>)) \<or>
         calculate_rapl_power self e t =
            Inl (OverflowError, self\<lparr>prev_rapl_energy := Some e, prev_rapl_time := Some t\<rparr>)"
  using assms
  by (auto simp: calculate_rapl_power_def both_or_neither_def Let_def split: option.splits)




lemma take_measurement_frame:
  assumes "take_measurement self w tk = Inr (m, self1, w1)"
  shows "w1 = w\<lparr>clock := clock w + elapsed tk\<rparr>"
    and "timestamp_unix m = clock w"
    and "interval self1 = interval self"
    and "output_file self1 = output_file self"
    and "running self1 = running self"
    and "measurements self1 = measurements self"
    and "both_or_neither self \<Longrightarrow> both_or_neither self1"
  using assms
  by (auto simp: take_measurement_def Let_def both_or_neither_def
      split: option.splits sum.splits dest!: calculate_stores)

lemma take_measurement_raised:
  assumes "take_measurement self w tk = Inl (err, self1, w1)"
  shows "w1 = w\<lparr>clock := clock w + elapsed tk\<rparr>"
    and "interval self1 = interval self"
    and "output_file self1 = output_file self"
    and "running self1 = running self"
    and "measurements self1 = measurements self"
    and "both_or_neither self \<Longrightarrow> both_or_neither self1"
  using assms
  by (auto simp: take_measurement_def Let_def both_or_neither_def
      split: option.splits sum.splits dest!: calculate_raised)


lemma take_measurement_read:
  assumes "take_measurement self w tk = Inr (m, self1, w1)"
    and "read_rapl_energy (rapl_content tk) = Some e"
  shows "calculate_rapl_power self e (clock w) = Inr (rapl_pkg_watts m, self1)"
  using assms
  by (auto simp: take_measurement_def Let_def split: sum.splits)

lemma take_measurement_failed_read:
  assumes "read_rapl_energy (rapl_content tk) = None" and "localtime w (clock w) = Inr s"
  shows "take_measurement self w tk =
           Inr (\<lparr> timestamp = s, timestamp_unix = clock w,
                  ipmi_watts = ipmi_reading tk, rapl_pkg_watts = None,
                  rapl_energy_uj = None \<rparr>, self, w\<lparr>clock := clock w + elapsed tk\<rparr>)"
  using assms by (simp add: take_measurement_def Let_def)

lemma take_measurement_cases:
  obtains (raised) err self1 w1 where "take_measurement self w tk = Inl (err, self1, w1)"
  | (taken) m self1 w1 where "take_measurement self w tk = Inr (m, self1, w1)"
proof (cases "take_measurement self w tk")
  case (Inl a)
  then show ?thesis by (cases a) (auto intro: raised)
next
  case (Inr b)
  then show ?thesis by (cases b) (auto intro: taken)
qed

subsection \<open>The loop and the run\<close>



lemma loop_Cons_cases:
  assumes "sampling_loop d s self w n (tk # tks) = res"
  obtains (stop) "\<not> running self \<or> duration_reached d s (clock w)"
      and "res = (if \<not> running self then NotRunning else DurationElapsed, self, w, n)"
  | (raised) err self1 w1 where "running self" and "\<not> duration_reached d s (clock w)"
      and "take_measurement self w tk = Inl (err, self1, w1)"
      and "res = (Raised err, self1, w1, n)"
  | (sleep_raised) m self1 w1 err where "running self"
      and "\<not> duration_reached d s (clock w)"
      and "take_measurement self w tk = Inr (m, self1, w1)"
      and "time_sleep (interval self1) = Some err"
      and "res = (Raised err, self1\<lparr>measurements := measurements self1 @ [m]\<rparr>, w1, n + 1)"
  | (go) m self1 w1 where "running self" and "\<not> duration_reached d s (clock w)"
      and "take_measurement self w tk = Inr (m, self1, w1)"
      and "time_sleep (interval self1) = None"
      and "sampling_loop d s (self1\<lparr>measurements := measurements self1 @ [m]\<rparr>)
             (w1\<lparr>clock := clock w1 + interval self1,
                 slept := slept w1 @ [interval self1]\<rparr>) (n + 1) tks = res"
proof (cases "\<not> running self \<or> duration_reached d s (clock w)")
  case True
  with assms have "res = (if \<not> running self then NotRunning else DurationElapsed, self, w, n)"
    by auto
  with True show ?thesis by (rule stop)
next
  case False
  then have live: "running self" "\<not> duration_reached d s (clock w)" by simp_all
  show ?thesis
  proof (cases rule: take_measurement_cases [of self w tk])
    case (raised err self1 w1)
    with assms live have "res = (Raised err, self1, w1, n)" by simp
    with live raised show ?thesis by (rule that(2))
  next
    case (taken m self1 w1)
    show ?thesis
    proof (cases "time_sleep (interval self1)")
      case None
      with assms live taken have
        "sampling_loop d s (self1\<lparr>measurements := measurements self1 @ [m]\<rparr>)
             (w1\<lparr>clock := clock w1 + interval self1,
                 slept := slept w1 @ [interval self1]\<rparr>) (n + 1) tks = res"
        by (simp add: Let_def)
      with live taken None show ?thesis by (rule go)
    next
      case (Some err)
      with assms live taken have
        "res = (Raised err, self1\<lparr>measurements := measurements self1 @ [m]\<rparr>, w1, n + 1)"
        by (simp add: Let_def)
      with live taken Some show ?thesis by (rule sleep_raised)
    qed
  qed
qed


lemma loop_stops_at_once:
  assumes "running self" and "duration_reached duration s (clock w)"
  shows "sampling_loop duration s self w n tks = (DurationElapsed, self, w, n)"
  using assms by (cases tks) simp_all

lemma loop_monitor_frame:
  assumes "sampling_loop duration s self w n tks = (out, self', w', n')"
  shows "interval self' = interval self \<and> output_file self' = output_file self \<and>
         running self' = running self"
  using assms
proof (induction tks arbitrary: self w n)
  case Nil
  then show ?case by (simp split: if_splits)
next
  case (Cons tk tks)
  from Cons.prems show ?case
  proof (cases rule: loop_Cons_cases)
    case stop
    then show ?thesis by simp
  next
    case (raised err self1 w1)
    with take_measurement_raised [OF raised(3)] show ?thesis by simp
  next
    case (sleep_raised m self1 w1 err)
    with take_measurement_frame [OF sleep_raised(3)] show ?thesis by simp
  next
    case (go m self1 w1)
    from Cons.IH [OF go(5)] take_measurement_frame [OF go(3)] show ?thesis
      by simp
  qed
qed

lemma loop_world_frame:
  assumes "sampling_loop duration s self w n tks = (out, self', w', n')"
  shows "written w' = written w \<and> output_writable w' = output_writable w"
  using assms
proof (induction tks arbitrary: self w n)
  case Nil
  then show ?case by (simp split: if_splits)
next
  case (Cons tk tks)
  from Cons.prems show ?case
  proof (cases rule: loop_Cons_cases)
    case stop
    then show ?thesis by simp
  next
    case (raised err self1 w1)
    with take_measurement_raised(1) [OF raised(3)] show ?thesis by simp
  next
    case (sleep_raised m self1 w1 err)
    with take_measurement_frame(1) [OF sleep_raised(3)] show ?thesis by simp
  next
    case (go m self1 w1)
    from Cons.IH [OF go(5)] take_measurement_frame(1) [OF go(3)] show ?thesis
      by simp
  qed
qed

lemma loop_invariant:
  assumes "sampling_loop duration s self w n tks = (out, self', w', n')"
    and "both_or_neither self"
  shows "both_or_neither self'"
  using assms
proof (induction tks arbitrary: self w n)
  case Nil
  then show ?case by (simp split: if_splits)
next
  case (Cons tk tks)
  from Cons.prems(1) show ?case
  proof (cases rule: loop_Cons_cases)
    case stop
    with Cons.prems(2) show ?thesis by simp
  next
    case (raised err self1 w1)
    with take_measurement_raised(6) [OF raised(3) Cons.prems(2)] show ?thesis by simp
  next
    case (sleep_raised m self1 w1 err)
    with take_measurement_frame(7) [OF sleep_raised(3) Cons.prems(2)] show ?thesis
      by (simp add: both_or_neither_def)
  next
    case (go m self1 w1)
    have "both_or_neither (self1\<lparr>measurements := measurements self1 @ [m]\<rparr>)"
      using take_measurement_frame(7) [OF go(3) Cons.prems(2)]
      by (simp add: both_or_neither_def)
    with Cons.IH [OF go(5)] show ?thesis .
  qed
qed

lemma loop_samples:
  assumes "sampling_loop duration s self w n tks = (out, self', w', n')"
  shows "\<exists>ms. measurements self' = measurements self @ ms \<and> n' = n + length ms \<and>
              length ms \<le> length tks \<and>
              (\<forall>m \<in> set ms. \<not> duration_reached duration s (timestamp_unix m))"
  using assms
proof (induction tks arbitrary: self w n)
  case Nil
  then show ?case by (simp split: if_splits)
next
  case (Cons tk tks)
  from Cons.prems show ?case
  proof (cases rule: loop_Cons_cases)
    case stop
    then show ?thesis by simp
  next
    case (raised err self1 w1)
    with take_measurement_raised(5) [OF raised(3)] show ?thesis by simp
  next
    case (sleep_raised m self1 w1 err)
    note fr = take_measurement_frame [OF sleep_raised(3)]
    from sleep_raised(2,5) fr(2,6) show ?thesis
      by (intro exI [of _ "[m]"]) simp
  next
    case (go m self1 w1)
    note fr = take_measurement_frame [OF go(3)]
    from Cons.IH [OF go(5)] obtain ms where
      ms: "measurements self' = measurements (self1\<lparr>measurements := measurements self1 @ [m]\<rparr>) @ ms"
          "n' = n + 1 + length ms" "length ms \<le> length tks"
          "\<forall>m \<in> set ms. \<not> duration_reached duration s (timestamp_unix m)"
      by blast
    with fr(2,6) go(2) show ?thesis
      by (intro exI [of _ "m # ms"]) simp
  qed
qed



lemma run_cases:
  obtains (raised) err self1 w1 where
      "take_measurement (self\<lparr>running := True\<rparr>) w priming = Inl (err, self1, w1)"
      and "run self duration w priming tks =
             \<lparr> outcome = Raised err, monitor = self1, final_world = w1,
               measurement_count = 0 \<rparr>"
  | (looped) initial self1 w1 out self2 w2 n where
      "take_measurement (self\<lparr>running := True\<rparr>) w priming = Inr (initial, self1, w1)"
      and "sampling_loop duration (clock w) self1 w1 0 tks = (out, self2, w2, n)"
      and "run self duration w priming tks =
             \<lparr> outcome = out, monitor = self2\<lparr>running := False\<rparr>,
               final_world = (if truthy_path (output_file self2)
                              then save_to_csv (self2\<lparr>running := False\<rparr>) w2 else w2),
               measurement_count = n \<rparr>"
proof (cases rule: take_measurement_cases [of "self\<lparr>running := True\<rparr>" w priming])
  case (raised err self1 w1)
  then have "run self duration w priming tks =
             \<lparr> outcome = Raised err, monitor = self1, final_world = w1,
               measurement_count = 0 \<rparr>"
    by (simp add: run_def)
  with raised show ?thesis by (rule that(1))
next
  case (taken initial self1 w1)
  obtain out self2 w2 n where
    lp: "sampling_loop duration (clock w) self1 w1 0 tks = (out, self2, w2, n)"
    by (cases "sampling_loop duration (clock w) self1 w1 0 tks") auto
  from taken lp have "run self duration w priming tks =
             \<lparr> outcome = out, monitor = self2\<lparr>running := False\<rparr>,
               final_world = (if truthy_path (output_file self2)
                              then save_to_csv (self2\<lparr>running := False\<rparr>) w2 else w2),
               measurement_count = n \<rparr>"
    by (simp add: run_def Let_def)
  with taken lp show ?thesis by (rule looped)
qed


lemma run_invariant:
  assumes "both_or_neither self"
  shows "both_or_neither (monitor (run self duration w priming tks))"
proof (cases rule: run_cases [of self w priming duration tks])
  case (raised err self1 w1)
  have "both_or_neither (self\<lparr>running := True\<rparr>)"
    using assms by (simp add: both_or_neither_def)
  from take_measurement_raised(6) [OF raised(1) this] raised(2) show ?thesis by simp
next
  case (looped initial self1 w1 out self2 w2 n)
  have "both_or_neither (self\<lparr>running := True\<rparr>)"
    using assms by (simp add: both_or_neither_def)
  from take_measurement_frame(7) [OF looped(1) this] have "both_or_neither self1" .
  from loop_invariant [OF looped(2) this] looped(3) show ?thesis
    by (simp add: both_or_neither_def)
qed

subsection \<open>Parsing the energy text\<close>

lemma strip_fixed:
  assumes "s = [] \<or> (\<not> py_isspace (hd s) \<and> \<not> py_isspace (last s))"
  shows "py_strip s = s"
proof (cases "s = []")
  case True
  then show ?thesis by (simp add: py_strip_def)
next
  case False
  with assms have h: "\<not> py_isspace (hd s)" and l: "\<not> py_isspace (last s)" by simp_all
  have "dropWhile py_isspace s = s"
    using h by (simp add: dropWhile_eq_self_iff)
  moreover have "dropWhile py_isspace (rev s) = rev s"
    using l False by (simp add: dropWhile_eq_self_iff hd_rev)
  ultimately show ?thesis by (simp add: py_strip_def)
qed

lemma strip_ends:
  "py_strip s = [] \<or> (\<not> py_isspace (hd (py_strip s)) \<and> \<not> py_isspace (last (py_strip s)))"
proof (cases "py_strip s = []")
  case True
  then show ?thesis by simp
next
  case False
  let ?a = "dropWhile py_isspace s"
  let ?d = "dropWhile py_isspace (rev ?a)"
  have b: "py_strip s = rev ?d" by (simp add: py_strip_def)
  with False have dne: "?d \<noteq> []" by simp
  then have l: "\<not> py_isspace (hd ?d)" by (rule hd_dropWhile)
  have "rev ?a = takeWhile py_isspace (rev ?a) @ ?d" by simp
  then have "?a = rev ?d @ rev (takeWhile py_isspace (rev ?a))"
    by (metis rev_append rev_rev_ident)
  with dne have "hd ?a = hd (rev ?d)" and "?a \<noteq> []"
    by (metis hd_append2 rev_is_Nil_conv, metis Nil_is_append_conv rev_is_Nil_conv)
  then have "\<not> py_isspace (hd (rev ?d))"
    using hd_dropWhile [of py_isspace s] by simp
  with l dne b show ?thesis by (simp add: last_rev)
qed

lemma strip_idem: "py_strip (py_strip s) = py_strip s"
  using strip_ends [of s] by (rule strip_fixed)

lemma strip_sandwich:
  assumes "\<forall>c \<in> set pre. py_isspace c" and "\<forall>c \<in> set post. py_isspace c"
    and "core \<noteq> []" and "\<not> py_isspace (hd core)" and "\<not> py_isspace (last core)"
  shows "py_strip (pre @ core @ post) = core"
proof -
  have "dropWhile py_isspace (pre @ core @ post) = dropWhile py_isspace (core @ post)"
    using assms(1) by (simp add: dropWhile_append2)
  also have "\<dots> = core @ post"
    using assms(3,4) by (simp add: dropWhile_eq_self_iff)
  finally have a: "dropWhile py_isspace (pre @ core @ post) = core @ post" .
  have "\<And>c. c \<in> set (rev post) \<Longrightarrow> py_isspace c"
    using assms(2) by simp
  then have "dropWhile py_isspace (rev post @ rev core) = dropWhile py_isspace (rev core)"
    by (rule dropWhile_append2)
  then have "dropWhile py_isspace (rev (core @ post)) = dropWhile py_isspace (rev core)"
    by simp
  also have "\<dots> = rev core"
    using assms(3,5) by (simp add: dropWhile_eq_self_iff hd_rev)
  finally show ?thesis using a by (simp add: py_strip_def)
qed

lemma scan_digits_sound:
  assumes "scan_digits body = Some ds"
  shows "body \<noteq> [] \<and> (\<forall>c \<in> set body. digit_value c \<noteq> None \<or> c = CHR ''_'') \<and>
         ds = List.map_filter digit_value body"
  using assms
proof (induction body arbitrary: ds rule: scan_digits.induct)
  case 1
  then show ?case by simp
next
  case (2 c cs)
  have us: "digit_value CHR ''_'' = None" by (simp add: digit_value_def)
  from "2.prems" obtain d where d: "digit_value c = Some d"
    by (auto split: option.splits)
  show ?case
  proof (cases cs)
    case Nil
    with "2.prems" d show ?thesis by (simp add: List.map_filter_simps)
  next
    case (Cons c' cs')
    show ?thesis
    proof (cases "c' = CHR ''_''")
      case True
      with "2.prems" d Cons obtain ds' where ds': "scan_digits cs' = Some ds'" "ds = d # ds'"
        by auto
      from "2.IH"(1) [OF d Cons True ds'(1)] d Cons True ds'(2) us show ?thesis
        by (simp add: List.map_filter_simps)
    next
      case False
      with "2.prems" d Cons obtain ds' where ds': "scan_digits cs = Some ds'" "ds = d # ds'"
        by auto
      from "2.IH"(2) [OF d Cons False ds'(1)] d ds'(2) show ?thesis
        by (simp add: List.map_filter_simps)
    qed
  qed
qed

lemma scan_digits_plain:
  assumes "cs \<noteq> []" and "\<forall>c \<in> set cs. digit_value c \<noteq> None"
  shows "scan_digits cs = Some (map (the \<circ> digit_value) cs)"
  using assms
proof (induction cs rule: scan_digits.induct)
  case 1
  then show ?case by simp
next
  case (2 c cs)
  from "2.prems" obtain d where d: "digit_value c = Some d" by auto
  have us: "digit_value CHR ''_'' = None" by (simp add: digit_value_def)
  show ?case
  proof (cases cs)
    case Nil
    with d show ?thesis by simp
  next
    case (Cons c' cs')
    with "2.prems" us have ne: "c' \<noteq> CHR ''_''" by auto
    from "2.IH"(2) [OF d Cons ne] "2.prems" Cons have "scan_digits cs = Some (map (the \<circ> digit_value) cs)"
      by simp
    with d Cons ne show ?thesis by simp
  qed
qed

lemma py_int_of_stripped:
  assumes "py_strip t = t"
  shows "py_int t =
     (case t of
        [] \<Rightarrow> Inl ValueError
      | c # cs \<Rightarrow>
          (case scan_digits (if c = CHR ''-'' \<or> c = CHR ''+'' then cs else t) of
             None \<Rightarrow> Inl ValueError
           | Some ds \<Rightarrow>
               if length ds > int_max_str_digits then Inl ValueError
               else Inr (if c = CHR ''-'' then - int (decimal ds) else int (decimal ds))))"
proof -
  have "py_int t =
     (case (case t of
              [] \<Rightarrow> (False, t)
            | c # cs \<Rightarrow>
                if c = CHR ''-'' then (True, cs)
                else if c = CHR ''+'' then (False, cs)
                else (False, t)) of
        (negative, body) \<Rightarrow>
          (case scan_digits body of
             None \<Rightarrow> Inl ValueError
           | Some ds \<Rightarrow>
               if length ds > int_max_str_digits then Inl ValueError
               else Inr (if negative then - int (decimal ds) else int (decimal ds))))"
    by (simp add: py_int_def assms Let_def)
  then show ?thesis
    by (cases t) (auto simp del: scan_digits.simps(2) split: option.splits)
qed

text \<open>The definitions a concrete run unfolds to.\<close>

lemmas run_unfold =
  run_def run_timed_from_sampling_def init_monitor_def host0_def round_of_def
  take_measurement_def read_rapl_energy_def py_int_def py_strip_def py_isspace_def
  digit_value_def decimal_def int_max_str_digits_def calculate_rapl_power_def
  max_counter_def duration_reached_def truthy_float_def truthy_path_def save_to_csv_def
  int_fits_float_def time_sleep_def Let_def

section \<open>The claims\<close>

subsection \<open>C1: power from two consecutive samples\<close>

text \<open>
  C1. Two consecutive estimator calls with strictly increasing timestamps and
  non-decreasing energy, the energy delta being an integer Python can convert to a
  float (every delta of 64-bit counter values is): the second call returns exactly
  \<open>((e2 - e1) / (t2 - t1)) / 1000000\<close> watts, the deltas being taken against the values
  the first call stored.
\<close>

theorem estimator_exact_power:
  assumes "calculate_rapl_power self e1 t1 = Inr (r1, self1)"
    and "t1 < t2" and "e1 \<le> e2" and "int_fits_float (e2 - e1)"
  shows "prev_rapl_energy self1 = Some e1 \<and> prev_rapl_time self1 = Some t1 \<and>
         calculate_rapl_power self1 e2 t2 =
           Inr (Some ((real_of_int (e2 - e1) / (t2 - t1)) / 1000000),
                self1\<lparr>prev_rapl_energy := Some e2, prev_rapl_time := Some t2\<rparr>)"
proof -
  have stored: "self1 = self\<lparr>prev_rapl_energy := Some e1, prev_rapl_time := Some t1\<rparr>"
    using assms(1) by (rule calculate_stores)
  then have pe: "prev_rapl_energy self1 = Some e1" and pt: "prev_rapl_time self1 = Some t1"
    by simp_all
  have "t2 - t1 \<le> 0 \<or> int_fits_float (if e2 - e1 < 0 then e2 - e1 + 2 ^ 32 else e2 - e1)"
    using assms(3,4) by simp
  from calculate_second [OF pe pt this] assms(2,3) pe pt show ?thesis
    by simp
qed

theorem estimator_exact_power_witness:
  "calculate_rapl_power (init_monitor 1 None True) 100 0 =
     Inr (None, (init_monitor 1 None True)\<lparr>prev_rapl_energy := Some 100,
                                           prev_rapl_time := Some 0\<rparr>) \<and>
   (0::real) < 2 \<and> (100::int) \<le> 5000100 \<and> int_fits_float (5000100 - 100) \<and>
   calculate_rapl_power
     ((init_monitor 1 None True)\<lparr>prev_rapl_energy := Some 100, prev_rapl_time := Some 0\<rparr>)
     5000100 2 =
     Inr (Some (5 / 2),
          (init_monitor 1 None True)\<lparr>prev_rapl_energy := Some 5000100,
                                      prev_rapl_time := Some 2\<rparr>)"
proof -
  have first: "calculate_rapl_power (init_monitor 1 None True) 100 0 =
     Inr (None, (init_monitor 1 None True)\<lparr>prev_rapl_energy := Some 100,
                                           prev_rapl_time := Some 0\<rparr>)"
    by (simp add: calculate_rapl_power_def init_monitor_def)
  have fits: "int_fits_float (5000100 - 100)"
    by (simp add: int_fits_float_def)
  from estimator_exact_power [OF first, of 2 5000100] first fits show ?thesis
    by simp
qed

subsection \<open>C2: the suspension after a sample\<close>




subsection \<open>C3: where the timed window starts\<close>

text \<open>
  C3 as stated fails: \<open>start_time\<close> is read on entry to \<open>run\<close>, before the priming
  round. Duration 1 s and a priming round that takes 2 s: the run takes no sample,
  where a window measured from the start of sampling would take one.
\<close>

theorem priming_consumes_duration_counterexample:
  "measurement_count (run (init_monitor 1 None True) (Some 1) host0 (round_of ''100'' 2)
                          [round_of ''200'' 0]) = 0 \<and>
   outcome (run (init_monitor 1 None True) (Some 1) host0 (round_of ''100'' 2)
                [round_of ''200'' 0]) = DurationElapsed \<and>
   measurement_count (run_timed_from_sampling (init_monitor 1 None True) (Some 1) host0
                          (round_of ''100'' 2) [round_of ''200'' 0]) = 1"
  by (simp add: run_unfold)

text \<open>
  C3, amended. When a non-zero duration is configured, the bounded-loop termination
  condition measures elapsed wall-clock time from the entry to \<open>run\<close>, before the
  priming round, so the time spent on priming counts against the configured duration:
  every sample is taken less than the duration after the entry to \<open>run\<close>, and a
  priming round that takes the whole duration leaves no sample.
\<close>

theorem duration_measured_from_run_entry:
  assumes "d \<noteq> 0"
  shows "(\<exists>ms. measurements (monitor (run self (Some d) w priming tks)) = measurements self @ ms \<and>
               length ms = measurement_count (run self (Some d) w priming tks) \<and>
               (\<forall>m \<in> set ms. timestamp_unix m - clock w < d)) \<and>
         (d \<le> elapsed priming \<longrightarrow>
            measurement_count (run self (Some d) w priming tks) = 0 \<and>
            measurements (monitor (run self (Some d) w priming tks)) = measurements self)"
proof (cases rule: run_cases [of self w priming "Some d" tks])
  case (raised err self1 w1)
  with take_measurement_raised(5) [OF raised(1)] show ?thesis by simp
next
  case (looped initial self1 w1 out self2 w2 n)
  note fr = take_measurement_frame [OF looped(1)]
  from loop_samples [OF looped(2)] obtain ms where
    ms: "measurements self2 = measurements self1 @ ms" "n = 0 + length ms"
        "\<forall>m \<in> set ms. \<not> duration_reached (Some d) (clock w) (timestamp_unix m)"
    by blast
  from ms(3) assms have "\<forall>m \<in> set ms. timestamp_unix m - clock w < d"
    by (simp add: duration_reached_def truthy_float_def not_le)
  with ms(1,2) fr(6) looped(3) have first: "\<exists>ms. measurements (monitor (run self (Some d) w priming tks)) = measurements self @ ms \<and>
               length ms = measurement_count (run self (Some d) w priming tks) \<and>
               (\<forall>m \<in> set ms. timestamp_unix m - clock w < d)"
    by simp
  have second: "measurement_count (run self (Some d) w priming tks) = 0 \<and>
            measurements (monitor (run self (Some d) w priming tks)) = measurements self"
    if late: "d \<le> elapsed priming"
  proof -
    have "running self1" using fr(5) by simp
    moreover have "duration_reached (Some d) (clock w) (clock w1)"
      using fr(1) assms late by (simp add: duration_reached_def truthy_float_def)
    ultimately have "sampling_loop (Some d) (clock w) self1 w1 0 tks = (DurationElapsed, self1, w1, 0)"
      by (rule loop_stops_at_once)
    with looped(2,3) fr(6) show ?thesis by simp
  qed
  from first second show ?thesis by blast
qed

theorem duration_measured_from_run_entry_witness:
  "(1::real) \<noteq> 0 \<and> (1::real) \<le> elapsed (round_of ''100'' 2) \<and>
   measurement_count (run (init_monitor 1 None True) (Some 1) host0 (round_of ''100'' 2)
                          [round_of ''200'' 0]) = 0 \<and>
   map timestamp_unix
     (measurements (monitor (run (init_monitor 1 None True) (Some 1) host0
                                 (round_of ''100'' (1 / 2)) [round_of ''200'' 0]))) = [1 / 2] \<and>
   (1 / 2 :: real) - clock host0 < 1"
  using duration_measured_from_run_entry [of 1 "init_monitor 1 None True" host0
      "round_of ''100'' 2" "[round_of ''200'' 0]"]
    duration_measured_from_run_entry [of 1 "init_monitor 1 None True" host0
      "round_of ''100'' (1 / 2)" "[round_of ''200'' 0]"]
  by (simp add: run_unfold)

subsection \<open>C4: what the energy read accepts\<close>

text \<open>
  C4 as stated fails: \<open>int()\<close> accepts a sign, and \<open>read_rapl_energy\<close> checks nothing
  after it. The content \<open>-5\<close> followed by a newline is returned as the energy \<open>-5\<close>.
\<close>

theorem negative_energy_text_accepted_counterexample:
  "read_rapl_energy (Some [CHR ''-'', CHR ''5'', CHR 0x0A]) = Some (- 5)"
  by (simp add: run_unfold)

text \<open>
  C4, amended. The energy read yields no value when the interface cannot be read or
  when its content, stripped of surrounding white space, is not an optional sign
  followed by a non-empty run of decimal digits and underscores; a value it yields is
  the signed decimal number written there. In particular a textual negative integer is
  accepted and returned as a negative energy value.
\<close>

theorem energy_read_signed_integer:
  "read_rapl_energy None = None \<and>
   (read_rapl_energy (Some content) = Some v \<longrightarrow>
      (\<exists>sgn body. py_strip content = sgn @ body \<and> sgn \<in> {[], ''+'', ''-''} \<and> body \<noteq> [] \<and>
         (\<forall>c \<in> set body. digit_value c \<noteq> None \<or> c = CHR ''_'') \<and>
         v = (if sgn = ''-'' then - int (decimal (List.map_filter digit_value body))
              else int (decimal (List.map_filter digit_value body))))) \<and>
   (digits \<noteq> [] \<and> (\<forall>c \<in> set digits. digit_value c \<noteq> None) \<and>
    length digits \<le> int_max_str_digits \<and> (\<forall>c \<in> set post. py_isspace c) \<longrightarrow>
      read_rapl_energy (Some (CHR ''-'' # digits @ post)) =
        Some (- int (decimal (map (the \<circ> digit_value) digits))))"
proof -
  have none: "read_rapl_energy None = None"
    by (simp add: read_rapl_energy_def)
  have sound: "\<exists>sgn body. py_strip content = sgn @ body \<and> sgn \<in> {[], ''+'', ''-''} \<and> body \<noteq> [] \<and>
         (\<forall>c \<in> set body. digit_value c \<noteq> None \<or> c = CHR ''_'') \<and>
         v = (if sgn = ''-'' then - int (decimal (List.map_filter digit_value body))
              else int (decimal (List.map_filter digit_value body)))"
    if rd: "read_rapl_energy (Some content) = Some v"
  proof -
    let ?t = "py_strip content"
    from rd have "py_int ?t = Inr v"
      by (simp add: read_rapl_energy_def split: sum.splits)
    then have pi: "(case ?t of
        [] \<Rightarrow> Inl ValueError
      | c # cs \<Rightarrow>
          (case scan_digits (if c = CHR ''-'' \<or> c = CHR ''+'' then cs else ?t) of
             None \<Rightarrow> Inl ValueError
           | Some ds \<Rightarrow>
               if length ds > int_max_str_digits then Inl ValueError
               else Inr (if c = CHR ''-'' then - int (decimal ds) else int (decimal ds)))) = Inr v"
      by (simp only: py_int_of_stripped [OF strip_idem])
    show ?thesis
    proof (cases ?t)
      case Nil
      with pi show ?thesis by simp
    next
      case (Cons c cs)
      consider (minus) "c = CHR ''-''" | (plus) "c = CHR ''+''"
        | (none) "c \<noteq> CHR ''-''" "c \<noteq> CHR ''+''" by blast
      then show ?thesis
      proof cases
        case minus
        with pi Cons obtain ds where ds: "scan_digits cs = Some ds" "v = - int (decimal ds)"
          by (auto split: option.splits if_splits)
        from scan_digits_sound [OF ds(1)] ds(2) Cons minus show ?thesis
          by (intro exI [of _ "''-''"] exI [of _ cs]) simp
      next
        case plus
        with pi Cons obtain ds where ds: "scan_digits cs = Some ds" "v = int (decimal ds)"
          by (auto split: option.splits if_splits)
        from scan_digits_sound [OF ds(1)] ds(2) Cons plus show ?thesis
          by (intro exI [of _ "''+''"] exI [of _ cs]) simp
      next
        case none
        with pi Cons obtain ds where ds: "scan_digits (c # cs) = Some ds" "v = int (decimal ds)"
          by (auto split: option.splits if_splits)
        from scan_digits_sound [OF ds(1)] ds(2) Cons show ?thesis
          by (intro exI [of _ "[]"] exI [of _ "c # cs"]) simp
      qed
    qed
  qed
  have neg: "read_rapl_energy (Some (CHR ''-'' # digits @ post)) =
        Some (- int (decimal (map (the \<circ> digit_value) digits)))"
    if d: "digits \<noteq> []" "\<forall>c \<in> set digits. digit_value c \<noteq> None"
      "length digits \<le> int_max_str_digits" and p: "\<forall>c \<in> set post. py_isspace c"
  proof -
    have sp: "\<not> py_isspace c" if "digit_value c \<noteq> None" for c
      using that by (auto simp: digit_value_def py_isspace_def split: if_splits)
    have "\<not> py_isspace (last (CHR ''-'' # digits))"
      using d(1,2) by (simp add: sp)
    moreover have "\<not> py_isspace (hd (CHR ''-'' # digits))"
      by (simp add: py_isspace_def)
    ultimately have "py_strip ([] @ (CHR ''-'' # digits) @ post) = CHR ''-'' # digits"
      using p by (intro strip_sandwich) simp_all
    then have st: "py_strip (CHR ''-'' # digits @ post) = CHR ''-'' # digits"
      by simp
    have "py_int (CHR ''-'' # digits) = Inr (- int (decimal (map (the \<circ> digit_value) digits)))"
      using py_int_of_stripped [of "CHR ''-'' # digits"] st
        strip_idem [of "CHR ''-'' # digits @ post"] scan_digits_plain [OF d(1,2)] d(3)
      by simp
    with st show ?thesis by (simp add: read_rapl_energy_def)
  qed
  from none sound neg show ?thesis by blast
qed

theorem energy_read_signed_integer_witness:
  "read_rapl_energy (Some [CHR ''-'', CHR ''5'', CHR 0x0A]) = Some (- 5) \<and>
   py_strip [CHR ''-'', CHR ''5'', CHR 0x0A] = ''-'' @ ''5'' \<and>
   ''5'' \<noteq> [] \<and> digit_value CHR ''5'' \<noteq> None \<and>
   length ''5'' \<le> int_max_str_digits \<and> py_isspace (CHR 0x0A) \<and>
   - int (decimal (map (the \<circ> digit_value) ''5'')) = - 5"
  using energy_read_signed_integer [of "[CHR ''-'', CHR ''5'', CHR 0x0A]" "- 5" "''5''"
      "[CHR 0x0A]"]
  by (simp add: run_unfold)

subsection \<open>C5: rollover\<close>

text \<open>
  C5 as stated fails: the counter may fall by \<open>2^32\<close> or more between two samples (the
  energy is an unbounded integer read from a text file), and then the corrected delta
  is not positive. Stored energy \<open>2^33\<close> at time 0, new energy 0 at time 1: the
  estimator returns \<open>-4294.967296\<close> watts.
\<close>

theorem rollover_not_positive_counterexample:
  "calculate_rapl_power
     ((init_monitor 1 None True)\<lparr>prev_rapl_energy := Some 8589934592,
                                 prev_rapl_time := Some 0\<rparr>) 0 1 =
     Inr (Some (- 4294967296 / 1000000),
          (init_monitor 1 None True)\<lparr>prev_rapl_energy := Some 0, prev_rapl_time := Some 1\<rparr>) \<and>
   \<not> (0::real) < - 4294967296 / 1000000"
  by (simp add: calculate_rapl_power_def init_monitor_def max_counter_def int_fits_float_def)

text \<open>
  C5, amended. Two consecutive estimator calls, the new energy strictly below the
  stored one, the timestamps strictly increasing and the corrected delta an integer
  Python can convert to a float: the second call returns
  \<open>((e2 + 2^32 - e1) / (t2 - t1)) / 1000000\<close>, and this value is positive exactly when
  the counter fell by less than \<open>2^32\<close>.
\<close>

theorem rollover_power:
  assumes "calculate_rapl_power self e1 t1 = Inr (r1, self1)"
    and "e2 < e1" and "t1 < t2" and "int_fits_float (e2 + 2 ^ 32 - e1)"
  shows "calculate_rapl_power self1 e2 t2 =
           Inr (Some ((real_of_int (e2 + 2 ^ 32 - e1) / (t2 - t1)) / 1000000),
                self1\<lparr>prev_rapl_energy := Some e2, prev_rapl_time := Some t2\<rparr>) \<and>
         (0 < (real_of_int (e2 + 2 ^ 32 - e1) / (t2 - t1)) / 1000000 \<longleftrightarrow> e1 - e2 < 2 ^ 32)"
proof -
  have stored: "self1 = self\<lparr>prev_rapl_energy := Some e1, prev_rapl_time := Some t1\<rparr>"
    using assms(1) by (rule calculate_stores)
  then have pe: "prev_rapl_energy self1 = Some e1" and pt: "prev_rapl_time self1 = Some t1"
    by simp_all
  have delta: "e2 - e1 + 2 ^ 32 = e2 + 2 ^ 32 - e1"
    by simp
  have call: "calculate_rapl_power self1 e2 t2 =
           Inr (Some ((real_of_int (e2 + 2 ^ 32 - e1) / (t2 - t1)) / 1000000),
                self1\<lparr>prev_rapl_energy := Some e2, prev_rapl_time := Some t2\<rparr>)"
  proof -
    have arg: "(if e2 - e1 < 0 then e2 - e1 + 2 ^ 32 else e2 - e1) = e2 + 2 ^ 32 - e1"
      using assms(2) by simp
    have "t2 - t1 \<le> 0 \<or> int_fits_float (if e2 - e1 < 0 then e2 - e1 + 2 ^ 32 else e2 - e1)"
      unfolding arg using assms(4) by (rule disjI2)
    from calculate_second [OF pe pt this] assms(2,3) show ?thesis
      by (simp add: delta)
  qed
  have "0 < real_of_int (e2 + 2 ^ 32 - e1) / (t2 - t1) \<longleftrightarrow> 0 < real_of_int (e2 + 2 ^ 32 - e1)"
    using assms(3) by (simp add: zero_less_divide_iff)
  also have "\<dots> \<longleftrightarrow> e1 - e2 < 2 ^ 32"
    by (simp only: of_int_0_less_iff) arith
  finally have "0 < (real_of_int (e2 + 2 ^ 32 - e1) / (t2 - t1)) / 1000000 \<longleftrightarrow> e1 - e2 < 2 ^ 32"
    by (simp add: zero_less_divide_iff)
  with call show ?thesis by blast
qed

theorem rollover_power_witness:
  "calculate_rapl_power (init_monitor 1 None True) 4294967000 0 =
     Inr (None, (init_monitor 1 None True)\<lparr>prev_rapl_energy := Some 4294967000,
                                           prev_rapl_time := Some 0\<rparr>) \<and>
   (704::int) < 4294967000 \<and> (0::real) < 2 \<and> int_fits_float (704 + 2 ^ 32 - 4294967000) \<and>
   calculate_rapl_power
     ((init_monitor 1 None True)\<lparr>prev_rapl_energy := Some 4294967000,
                                 prev_rapl_time := Some 0\<rparr>) 704 2 =
     Inr (Some (1 / 2000),
          (init_monitor 1 None True)\<lparr>prev_rapl_energy := Some 704, prev_rapl_time := Some 2\<rparr>) \<and>
   (0::real) < 1 / 2000"
proof -
  have first: "calculate_rapl_power (init_monitor 1 None True) 4294967000 0 =
     Inr (None, (init_monitor 1 None True)\<lparr>prev_rapl_energy := Some 4294967000,
                                           prev_rapl_time := Some 0\<rparr>)"
    by (simp add: calculate_rapl_power_def init_monitor_def)
  have fits: "int_fits_float (704 + 2 ^ 32 - 4294967000)"
    by (simp add: int_fits_float_def)
  from rollover_power [OF first, of 704 2] first fits show ?thesis
    by simp
qed

subsection \<open>C6: a time delta that is not positive\<close>

text \<open>
  C6. An estimator call after an earlier one, with a timestamp not after the stored
  one: no power value is returned (no division takes place), and the state is advanced
  to the new energy and timestamp all the same.
\<close>

theorem nonpositive_time_delta:
  assumes "calculate_rapl_power self e1 t1 = Inr (r1, self1)"
    and "t2 \<le> t1"
  shows "\<exists>self2. calculate_rapl_power self1 e2 t2 = Inr (None, self2) \<and>
           self2 = self1\<lparr>prev_rapl_energy := Some e2, prev_rapl_time := Some t2\<rparr> \<and>
           prev_rapl_energy self2 = Some e2 \<and> prev_rapl_time self2 = Some t2"
proof -
  have stored: "self1 = self\<lparr>prev_rapl_energy := Some e1, prev_rapl_time := Some t1\<rparr>"
    using assms(1) by (rule calculate_stores)
  then have pe: "prev_rapl_energy self1 = Some e1" and pt: "prev_rapl_time self1 = Some t1"
    by simp_all
  have "t2 - t1 \<le> 0 \<or> int_fits_float (if e2 - e1 < 0 then e2 - e1 + 2 ^ 32 else e2 - e1)"
    using assms(2) by simp
  from calculate_second [OF pe pt this] assms(2) show ?thesis
    by simp
qed

theorem nonpositive_time_delta_witness:
  "calculate_rapl_power (init_monitor 1 None True) 100 7 =
     Inr (None, (init_monitor 1 None True)\<lparr>prev_rapl_energy := Some 100,
                                           prev_rapl_time := Some 7\<rparr>) \<and>
   (7::real) \<le> 7 \<and>
   calculate_rapl_power
     ((init_monitor 1 None True)\<lparr>prev_rapl_energy := Some 100, prev_rapl_time := Some 7\<rparr>)
     250 7 =
     Inr (None, (init_monitor 1 None True)\<lparr>prev_rapl_energy := Some 250,
                                           prev_rapl_time := Some 7\<rparr>)"
proof -
  have first: "calculate_rapl_power (init_monitor 1 None True) 100 7 =
     Inr (None, (init_monitor 1 None True)\<lparr>prev_rapl_energy := Some 100,
                                           prev_rapl_time := Some 7\<rparr>)"
    by (simp add: calculate_rapl_power_def init_monitor_def)
  from nonpositive_time_delta [OF first, of 7 250] first show ?thesis
    by simp
qed

subsection \<open>C7: the persisted file\<close>

text \<open>
  C7 as stated fails: \<open>save_to_csv\<close> returns at once when there is no measurement, so
  a run that ends before its first sampling round writes no file, not even the header
  row. Output path \<open>out.csv\<close>, duration 1 s, a priming round that takes 2 s: nothing is
  written.
\<close>

theorem no_file_without_samples_counterexample:
  "written (final_world (run (init_monitor 1 (Some ''out.csv'') True) (Some 1) host0
                          (round_of ''100'' 2) [round_of ''200'' 0])) = [] \<and>
   written (final_world (run (init_monitor 1 (Some ''out.csv'') True) (Some 1) host0
                          (round_of ''100'' 2) [round_of ''200'' 0])) \<noteq>
     [(''out.csv'', [fieldnames])]"
  by (simp add: run_unfold)

text \<open>
  C7, amended. For a freshly built monitor with a non-empty output path that can be
  opened for writing: when at least one sampling round completed, the file is written
  once, at run completion, with the fixed header row and exactly one data row per
  sampling round (the priming round has none), each absent optional field being the
  empty string; when no sampling round completed, no file is written.
\<close>

theorem csv_saved_at_completion:
  assumes "path \<noteq> []" and "output_writable w"
  shows "length (measurements (monitor (run (init_monitor i (Some path) v) duration w priming tks)))
           = measurement_count (run (init_monitor i (Some path) v) duration w priming tks) \<and>
         measurement_count (run (init_monitor i (Some path) v) duration w priming tks) \<le> length tks \<and>
         written (final_world (run (init_monitor i (Some path) v) duration w priming tks)) =
           (if measurements (monitor (run (init_monitor i (Some path) v) duration w priming tks)) = []
            then written w
            else written w @
                 [(path, fieldnames #
                         map csv_row (measurements
                           (monitor (run (init_monitor i (Some path) v) duration w priming tks))))]) \<and>
         (\<forall>m \<in> set (measurements
                       (monitor (run (init_monitor i (Some path) v) duration w priming tks))).
            length (csv_row m) = length fieldnames \<and>
            (ipmi_watts m = None \<longrightarrow> csv_row m ! 2 = Text '''') \<and>
            (rapl_pkg_watts m = None \<longrightarrow> csv_row m ! 3 = Text '''') \<and>
            (rapl_energy_uj m = None \<longrightarrow> csv_row m ! 4 = Text ''''))"
proof -
  have cells: "length (csv_row m) = length fieldnames \<and>
            (ipmi_watts m = None \<longrightarrow> csv_row m ! 2 = Text '''') \<and>
            (rapl_pkg_watts m = None \<longrightarrow> csv_row m ! 3 = Text '''') \<and>
            (rapl_energy_uj m = None \<longrightarrow> csv_row m ! 4 = Text '''')" for m
    by (simp add: csv_row_def fieldnames_def csv_value_def)
  have saved: "length (measurements (monitor (run (init_monitor i (Some path) v) duration w priming tks)))
           = measurement_count (run (init_monitor i (Some path) v) duration w priming tks) \<and>
         measurement_count (run (init_monitor i (Some path) v) duration w priming tks) \<le> length tks \<and>
         written (final_world (run (init_monitor i (Some path) v) duration w priming tks)) =
           (if measurements (monitor (run (init_monitor i (Some path) v) duration w priming tks)) = []
            then written w
            else written w @
                 [(path, fieldnames #
                         map csv_row (measurements
                           (monitor (run (init_monitor i (Some path) v) duration w priming tks))))])"
  proof (cases rule: run_cases [of "init_monitor i (Some path) v" w priming duration tks])
    case (raised err self1 w1)
    with take_measurement_raised(1,5) [OF raised(1)] show ?thesis
      by (simp add: init_monitor_def)
  next
    case (looped initial self1 w1 out self2 w2 n)
    note fr = take_measurement_frame [OF looped(1)]
    have m1: "measurements self1 = []" and o1: "output_file self1 = Some path"
      using fr(4,6) by (simp_all add: init_monitor_def)
    from loop_samples [OF looped(2)] m1 obtain ms where
      ms: "measurements self2 = ms" "n = length ms" "length ms \<le> length tks"
      by auto
    from loop_monitor_frame [OF looped(2)] o1 have o2: "output_file self2 = Some path"
      by simp
    from loop_world_frame [OF looped(2)] fr(1) assms(2)
    have w2: "written w2 = written w" "output_writable w2"
      by simp_all
    from looped(3) ms o2 w2 assms(1) show ?thesis
      by (simp add: save_to_csv_def truthy_path_def)
  qed
  from saved cells show ?thesis by blast
qed

theorem csv_saved_at_completion_witness:
  "''out.csv'' \<noteq> [] \<and> output_writable host0 \<and>
   written (final_world (run (init_monitor 1 (Some ''out.csv'') True) None host0
                          (round_of ''100'' 1) [round_of ''5000100'' 0])) =
     [(''out.csv'',
       [Text ''timestamp'', Text ''timestamp_unix'', Text ''ipmi_watts'',
        Text ''rapl_pkg_watts'', Text ''rapl_energy_uj''] #
       [Text ''2024-01-01 00:00:00.000'', Float 1, Text '''', Float 5, Integer 5000100] # [])]"
  using csv_saved_at_completion [of "''out.csv''" host0 1 True None "round_of ''100'' 1"
      "[round_of ''5000100'' 0]"]
  by (simp add: run_unfold fieldnames_def csv_row_def csv_value_def)

subsection \<open>C8: the estimator state is paired\<close>

text \<open>
  C8. Every reachable monitor object has \<open>prev_rapl_energy\<close> and \<open>prev_rapl_time\<close>
  both present or both absent, and every estimator call on it, whether it returns or
  raises in the division, leaves both stored: no reachable state has exactly one of
  the two set.
\<close>

theorem estimator_state_paired:
  assumes "reachable self"
  shows "both_or_neither self \<and>
         (\<exists>res self'.
            (calculate_rapl_power self e t = Inr (res, self') \<or>
             calculate_rapl_power self e t = Inl (OverflowError, self')) \<and>
            prev_rapl_energy self' = Some e \<and> prev_rapl_time self' = Some t \<and>
            both_or_neither self')"
proof -
  from assms have inv: "both_or_neither self"
  proof induction
    case (reach_init i out v)
    show ?case by (simp add: both_or_neither_def init_monitor_def)
  next
    case (reach_estimate self e t r self')
    from calculate_stores [OF reach_estimate(2)] show ?case
      by (simp add: both_or_neither_def)
  next
    case (reach_estimate_raised self e t err self')
    from calculate_raised [OF reach_estimate_raised(2)] reach_estimate_raised(3) show ?case
      by (auto simp: both_or_neither_def)
  next
    case (reach_round self w tk m self' w')
    from take_measurement_frame(7) [OF reach_round(2) reach_round(3)] show ?case .
  next
    case (reach_round_raised self w tk err self' w')
    from take_measurement_raised(6) [OF reach_round_raised(2) reach_round_raised(3)]
    show ?case .
  next
    case (reach_run self duration w priming tks)
    then show ?case by (simp add: run_invariant)
  qed
  from calculate_total [OF inv, of e t] inv show ?thesis
    by (auto simp: both_or_neither_def)
qed

theorem estimator_state_paired_witness:
  "reachable (init_monitor 1 None True) \<and> both_or_neither (init_monitor 1 None True) \<and>
   calculate_rapl_power (init_monitor 1 None True) 100 0 =
     Inr (None, (init_monitor 1 None True)\<lparr>prev_rapl_energy := Some 100,
                                           prev_rapl_time := Some 0\<rparr>)"
proof -
  have r: "reachable (init_monitor 1 None True)"
    by (rule reach_init)
  from estimator_state_paired [OF r, of 100 0] r show ?thesis
    by (simp add: calculate_rapl_power_def init_monitor_def)
qed

subsection \<open>C9: a round whose energy read fails\<close>

text \<open>
  C9. In a round whose energy read yields no value the estimator is not called: the
  round (its time being one the host can render) returns the monitor object unchanged and a sample without energy and without
  on-chip power. The next round that reads an energy (the delta being an integer
  Python can convert to a float) computes the power against the sample stored before
  the failed round, over the combined interval.
\<close>

theorem failed_read_keeps_estimator_state:
  assumes "take_measurement self w1 tk1 = Inr (m1, self1, w1')"
    and "read_rapl_energy (rapl_content tk1) = Some e1"
    and "read_rapl_energy (rapl_content tk2) = None"
    and "read_rapl_energy (rapl_content tk3) = Some e3"
    and "clock w1 < clock w3" and "e1 \<le> e3" and "int_fits_float (e3 - e1)"
    and "localtime w2 (clock w2) = Inr s2" and "localtime w3 (clock w3) = Inr s3"
  shows "\<exists>m2 m3 self3.
           take_measurement self1 w2 tk2 = Inr (m2, self1, w2\<lparr>clock := clock w2 + elapsed tk2\<rparr>) \<and>
           rapl_pkg_watts m2 = None \<and> rapl_energy_uj m2 = None \<and>
           take_measurement self1 w3 tk3 = Inr (m3, self3, w3\<lparr>clock := clock w3 + elapsed tk3\<rparr>) \<and>
           rapl_pkg_watts m3 =
             Some ((real_of_int (e3 - e1) / (clock w3 - clock w1)) / 1000000) \<and>
           prev_rapl_energy self3 = Some e3 \<and> prev_rapl_time self3 = Some (clock w3)"
proof -
  from take_measurement_read [OF assms(1,2)]
  have "self1 = self\<lparr>prev_rapl_energy := Some e1, prev_rapl_time := Some (clock w1)\<rparr>"
    by (rule calculate_stores)
  then have pe: "prev_rapl_energy self1 = Some e1"
    and pt: "prev_rapl_time self1 = Some (clock w1)"
    by simp_all
  have second: "take_measurement self1 w2 tk2 =
           Inr (\<lparr> timestamp = s2, timestamp_unix = clock w2,
                  ipmi_watts = ipmi_reading tk2, rapl_pkg_watts = None,
                  rapl_energy_uj = None \<rparr>, self1, w2\<lparr>clock := clock w2 + elapsed tk2\<rparr>)"
    using assms(3,8) by (rule take_measurement_failed_read)
  have calc: "calculate_rapl_power self1 e3 (clock w3) =
           Inr (Some ((real_of_int (e3 - e1) / (clock w3 - clock w1)) / 1000000),
                self1\<lparr>prev_rapl_energy := Some e3, prev_rapl_time := Some (clock w3)\<rparr>)"
  proof -
    have "clock w3 - clock w1 \<le> 0 \<or>
          int_fits_float (if e3 - e1 < 0 then e3 - e1 + 2 ^ 32 else e3 - e1)"
      using assms(6,7) by simp
    from calculate_second [OF pe pt this] assms(5,6) show ?thesis by simp
  qed
  have third: "take_measurement self1 w3 tk3 =
           Inr (\<lparr> timestamp = s3, timestamp_unix = clock w3,
                  ipmi_watts = ipmi_reading tk3,
                  rapl_pkg_watts = Some ((real_of_int (e3 - e1) / (clock w3 - clock w1)) / 1000000),
                  rapl_energy_uj = Some e3 \<rparr>,
                self1\<lparr>prev_rapl_energy := Some e3, prev_rapl_time := Some (clock w3)\<rparr>,
                w3\<lparr>clock := clock w3 + elapsed tk3\<rparr>)"
    using assms(4,9) calc by (simp add: take_measurement_def Let_def)
  from second third show ?thesis by simp
qed

theorem failed_read_keeps_estimator_state_witness:
  "read_rapl_energy (rapl_content (round_of ''100'' 1)) = Some 100 \<and>
   read_rapl_energy (rapl_content (round_of ''n/a'' 1)) = None \<and>
   read_rapl_energy (rapl_content (round_of ''5000100'' 1)) = Some 5000100 \<and>
   clock host0 < clock (host0\<lparr>clock := 2\<rparr>) \<and> (100::int) \<le> 5000100 \<and>
   int_fits_float (5000100 - 100) \<and>
   localtime (host0\<lparr>clock := 1\<rparr>) (clock (host0\<lparr>clock := 1\<rparr>)) =
     Inr ''2024-01-01 00:00:00.000'' \<and>
   localtime (host0\<lparr>clock := 2\<rparr>) (clock (host0\<lparr>clock := 2\<rparr>)) =
     Inr ''2024-01-01 00:00:00.000'' \<and>
   (\<exists>m3 self3.
      take_measurement
        ((init_monitor 1 None True)\<lparr>prev_rapl_energy := Some 100, prev_rapl_time := Some 0\<rparr>)
        (host0\<lparr>clock := 2\<rparr>) (round_of ''5000100'' 1) = Inr (m3, self3, host0\<lparr>clock := 3\<rparr>) \<and>
      rapl_pkg_watts m3 = Some (5 / 2))"
proof -
  have first: "take_measurement (init_monitor 1 None True) host0 (round_of ''100'' 1) =
      Inr (\<lparr> timestamp = ''2024-01-01 00:00:00.000'', timestamp_unix = 0, ipmi_watts = None,
             rapl_pkg_watts = None, rapl_energy_uj = Some 100 \<rparr>,
           (init_monitor 1 None True)\<lparr>prev_rapl_energy := Some 100, prev_rapl_time := Some 0\<rparr>,
           host0\<lparr>clock := 1\<rparr>)"
    by (simp add: run_unfold)
  have r1: "read_rapl_energy (rapl_content (round_of ''100'' 1)) = Some 100"
    and r2: "read_rapl_energy (rapl_content (round_of ''n/a'' 1)) = None"
    and r3: "read_rapl_energy (rapl_content (round_of ''5000100'' 1)) = Some 5000100"
    by (simp_all add: run_unfold)
  have t: "clock host0 < clock (host0\<lparr>clock := 2\<rparr>)"
    by (simp add: host0_def)
  have e: "(100::int) \<le> 5000100"
    by simp
  have f: "int_fits_float (5000100 - 100)"
    by (simp add: int_fits_float_def)
  have l2: "localtime (host0\<lparr>clock := 1\<rparr>) (clock (host0\<lparr>clock := 1\<rparr>)) =
      Inr ''2024-01-01 00:00:00.000''"
    and l3: "localtime (host0\<lparr>clock := 2\<rparr>) (clock (host0\<lparr>clock := 2\<rparr>)) =
      Inr ''2024-01-01 00:00:00.000''"
    by (simp_all add: host0_def)
  from failed_read_keeps_estimator_state [OF first r1 r2 r3 t e f l2 l3]
  have "\<exists>m3 self3.
      take_measurement
        ((init_monitor 1 None True)\<lparr>prev_rapl_energy := Some 100, prev_rapl_time := Some 0\<rparr>)
        (host0\<lparr>clock := 2\<rparr>) (round_of ''5000100'' 1) = Inr (m3, self3, host0\<lparr>clock := 3\<rparr>) \<and>
      rapl_pkg_watts m3 = Some (5 / 2)"
    by (auto simp: host0_def round_of_def)
  with r1 r2 r3 t e f l2 l3 show ?thesis by blast
qed

subsection \<open>C10: a duration of zero\<close>



end
